theory Spec2Isabelle
  imports Complex_Main "HOL-Library.Log_Nat"
begin

section \<open>Data model\<close>

text \<open>
  The attendance checker of \<^verbatim>\<open>index.js\<close>. The timer-triggered function fetches the list of
  registered courses, compares each course's lecture counters with the state stored by the
  previous run, sends one message per changed course and builds the state to store.

  The lecture counters are JavaScript numbers with integer values; they are modelled as
  \<open>int\<close>, which is exact for the safe integers (magnitude below \<open>2 ^ 53\<close>).
\<close>

text \<open>The object \<^verbatim>\<open>{ present, total }\<close> stored per course code.\<close>

record counters =
  present :: int
  total :: int

text \<open>
  The stored state: the own properties of a plain object keyed by course code. The object
  itself is \<^verbatim>\<open>{}\<close> or the value read from the store, with \<^verbatim>\<open>Object.prototype\<close> as its
  prototype; what a property read finds beyond the own properties is modelled in
  \<open>oldCounters\<close> below.
\<close>

type_synonym snapshot = "string \<rightharpoonup> counters"

text \<open>
  A fetched course, with the fields the function reads: \<^verbatim>\<open>courseCode\<close>,
  \<^verbatim>\<open>courseName\<close> and the array \<^verbatim>\<open>studentCourseCompDetails\<close>, whose entries carry
  \<^verbatim>\<open>presentLecture\<close> and \<^verbatim>\<open>totalLecture\<close>.
\<close>

record compDetail =
  presentLecture :: int
  totalLecture :: int

record course =
  courseCode :: string
  courseName :: string
  studentCourseCompDetails :: "compDetail list"

text \<open>
  The status strings \<^verbatim>\<open>"Present"\<close>, \<^verbatim>\<open>"Absent"\<close> and \<^verbatim>\<open>"Unknown"\<close> of the loop;
  \<open>Unchanged\<close> stands for the guarded block of line 182 not being entered.
\<close>

datatype ChangeStatus = Unchanged | Present | Absent | Unknown

datatype severity = Critical | Secure

text \<open>
  The message built by \<^verbatim>\<open>calculateAttendanceMessage\<close> is a template string; it is
  represented by the values interpolated into it. \<open>percentage\<close> is the local constant of
  that name (the text shows it with one decimal), \<open>severity\<close> tells which of the two final
  blocks was appended, and \<open>actionCount\<close> is the number printed in that block.
\<close>

record message =
  courseLabel :: string
  statusText :: string
  msgPresent :: int
  msgTotal :: int
  percentage :: rat
  severity :: severity
  actionCount :: int

text \<open>
  What the loop emits for a changed course: the log line
  \<^verbatim>\<open>Change detected for ${code}: ${status}\<close> and the message handed to
  \<^verbatim>\<open>send_telegram\<close>.
\<close>

record notification =
  noteCode :: string
  noteStatus :: ChangeStatus
  noteMsg :: message

text \<open>
  Reading a property of \<^verbatim>\<open>undefined\<close> throws a \<^verbatim>\<open>TypeError\<close>; it is the only
  exception the loop body can raise on courses with integer counters.
\<close>

datatype error = TypeError

record loop_state =
  newState :: snapshot
  sent :: "notification list"

text \<open>
  The value that line 181 binds to \<^verbatim>\<open>old\<close>: a counters object (a stored entry or the
  default), or a member inherited from \<^verbatim>\<open>Object.prototype\<close>, a function or the prototype
  itself, on which \<^verbatim>\<open>present\<close> and \<^verbatim>\<open>total\<close> are \<^verbatim>\<open>undefined\<close>.
\<close>

datatype oldValue = Entry counters | Inherited

section \<open>Double precision\<close>

text \<open>
  JavaScript numbers are IEEE doubles: every arithmetic operation returns the double nearest
  to the exact result, a tie going to the even significand. A finite double is an integer
  of at most 53 bits times a power of two, and is represented here by its value in \<open>rat\<close>.
  The limits of the exponent range are not modelled; on safe integers the operations of
  \<^verbatim>\<open>calculateAttendanceMessage\<close> stay far inside them.
\<close>

text \<open>The nearest integer, a tie going to the even one.\<close>

definition roundEven :: "rat \<Rightarrow> int" where
  "roundEven x =
     (let f = \<lfloor>x\<rfloor>; r = x - of_int f
      in if r < 1 / 2 then f
         else if 1 / 2 < r then f + 1
         else if even f then f else f + 1)"

text \<open>The binary exponent \<open>e\<close> of a number other than zero: \<open>2 ^ e \<le> |x| < 2 ^ (e + 1)\<close>.\<close>

definition exponent :: "rat \<Rightarrow> int" where
  "exponent x =
     (case quotient_of \<bar>x\<bar> of
        (a, b) \<Rightarrow>
          (let e = bitlen a - bitlen b
           in if 2 powi e \<le> \<bar>x\<bar> then e else e - 1))"

text \<open>Rounding to the nearest double: to the nearest multiple of \<open>2 ^ (e - 52)\<close>.\<close>

definition toDouble :: "rat \<Rightarrow> rat" where
  "toDouble x =
     (if x = 0 then 0
      else (let u = 2 powi (exponent x - 52) in of_int (roundEven (x / u)) * u))"

section \<open>The message calculator\<close>

text \<open>
  \<^verbatim>\<open>statusMap[status] || "UNKNOWN"\<close>: a status outside the table gets the text of
  \<^verbatim>\<open>Unknown\<close>. (The emoji before each text is left out.)
\<close>

definition statusMap :: "ChangeStatus \<rightharpoonup> string" where
  "statusMap status =
     (case status of
        Present \<Rightarrow> Some ''PRESENT''
      | Absent \<Rightarrow> Some ''ABSENT''
      | Unknown \<Rightarrow> Some ''UNKNOWN''
      | Unchanged \<Rightarrow> None)"

text \<open>
  Lines 101 to 129 as the program computes them, every operation rounded to a double;
  \<open>p\<close> and \<open>t\<close> are the parameters \<^verbatim>\<open>present\<close> and \<^verbatim>\<open>total\<close>. The literals
  \<^verbatim>\<open>0.75\<close>, \<^verbatim>\<open>0.25\<close>, \<^verbatim>\<open>100\<close> and \<^verbatim>\<open>75\<close> are doubles, and
  \<^verbatim>\<open>Math.ceil\<close>, \<^verbatim>\<open>Math.floor\<close> and \<^verbatim>\<open>Math.max\<close> are exact.
\<close>

definition calculateAttendanceMessageDouble ::
    "string \<Rightarrow> int \<Rightarrow> int \<Rightarrow> ChangeStatus \<Rightarrow> message" where
  "calculateAttendanceMessageDouble course p t status =
     (let percentage = (if t > 0 then toDouble (toDouble (of_int p / of_int t) * 100) else 0);
          statusText = (case statusMap status of Some s \<Rightarrow> s | None \<Rightarrow> ''UNKNOWN'')
      in if percentage < 75 then
           (let x = \<lceil>toDouble (toDouble (toDouble (0.75 * of_int t) - of_int p) / 0.25)\<rceil>
            in \<lparr>courseLabel = course, statusText = statusText, msgPresent = p, msgTotal = t,
                percentage = percentage, severity = Critical, actionCount = max 0 x\<rparr>)
         else
           (let y = \<lfloor>toDouble (toDouble (of_int p / 0.75) - of_int t)\<rfloor>
            in \<lparr>courseLabel = course, statusText = statusText, msgPresent = p, msgTotal = t,
                percentage = percentage, severity = Secure, actionCount = max 0 y\<rparr>))"

text \<open>
  The same lines with the arithmetic read exactly, over the rationals. The two readings give
  the same severity and the same count for counters up to \<open>2 ^ 50\<close> (lemma
  \<open>double_agrees_exact\<close> below); from about \<open>2 ^ 51\<close> on they differ. The
  zero-total guard, the clamp of the count, the strict threshold and the range of the
  percentage are stated on this reading and hold of the doubles as well (lemmas
  \<open>double_safe_and_strict\<close> and \<open>percentage_double_in_range_iff\<close>).
\<close>

definition calculateAttendanceMessage ::
    "string \<Rightarrow> int \<Rightarrow> int \<Rightarrow> ChangeStatus \<Rightarrow> message" where
  "calculateAttendanceMessage course p t status =
     (let percentage = (if t > 0 then of_int p / of_int t * 100 else 0);
          statusText = (case statusMap status of Some s \<Rightarrow> s | None \<Rightarrow> ''UNKNOWN'')
      in if percentage < 75 then
           (let x = \<lceil>(0.75 * of_int t - of_int p) / (0.25 :: rat)\<rceil>
            in \<lparr>courseLabel = course, statusText = statusText, msgPresent = p, msgTotal = t,
                percentage = percentage, severity = Critical, actionCount = max 0 x\<rparr>)
         else
           (let y = \<lfloor>of_int p / 0.75 - (of_int t :: rat)\<rfloor>
            in \<lparr>courseLabel = course, statusText = statusText, msgPresent = p, msgTotal = t,
                percentage = percentage, severity = Secure, actionCount = max 0 y\<rparr>))"

section \<open>The course loop\<close>

text \<open>
  The property names of \<^verbatim>\<open>Object.prototype\<close>. A read \<^verbatim>\<open>prevState[code]\<close> of one of
  them finds the inherited member when the state has no own entry of that name, and an
  assignment to \<^verbatim>\<open>__proto__\<close> runs the inherited setter.
\<close>

definition objectPrototypeKeys :: "string list" where
  "objectPrototypeKeys =
     [''constructor'', ''__defineGetter__'', ''__defineSetter__'', ''hasOwnProperty'',
      ''__lookupGetter__'', ''__lookupSetter__'', ''isPrototypeOf'', ''propertyIsEnumerable'',
      ''toString'', ''valueOf'', ''__proto__'', ''toLocaleString'']"

text \<open>
  \<^verbatim>\<open>prevState[code] || { present: 0, total: 0 }\<close> (line 181). An own entry is an object
  and an inherited member is a function or an object: both are truthy, and the default is
  taken only when the read gives \<^verbatim>\<open>undefined\<close>.
\<close>

definition oldCounters :: "snapshot \<Rightarrow> string \<Rightarrow> oldValue" where
  "oldCounters prevState code =
     (case prevState code of
        Some old \<Rightarrow> Entry old
      | None \<Rightarrow>
          if code \<in> set objectPrototypeKeys then Inherited
          else Entry \<lparr>present = 0, total = 0\<rparr>)"

text \<open>The decision of lines 182 to 188 on old and current counters.\<close>

definition classify :: "counters \<Rightarrow> counters \<Rightarrow> ChangeStatus" where
  "classify old cur =
     (if present old \<noteq> present cur \<or> total old \<noteq> total cur then
        (if total cur > total old \<and> present cur > present old then Present
         else if total cur > total old \<and> present cur = present old then Absent
         else Unknown)
      else Unchanged)"

text \<open>
  The same lines on the value of line 181. On an inherited member
  \<^verbatim>\<open>old.present !== present\<close> compares \<^verbatim>\<open>undefined\<close> with a number and is true, and
  \<^verbatim>\<open>total > old.total\<close> compares with \<^verbatim>\<open>undefined\<close> and is false: the block is entered
  and the status stays \<^verbatim>\<open>"Unknown"\<close>.
\<close>

definition changeStatus :: "oldValue \<Rightarrow> counters \<Rightarrow> ChangeStatus" where
  "changeStatus old cur =
     (case old of
        Entry c \<Rightarrow> classify c cur
      | Inherited \<Rightarrow> Unknown)"

text \<open>
  One iteration of the loop (lines 174 to 193); \<open>comp0\<close> is the constant \<^verbatim>\<open>comp\<close>.
  \<^verbatim>\<open>studentCourseCompDetails[0]\<close> is \<^verbatim>\<open>undefined\<close> on an empty array, and reading
  \<^verbatim>\<open>presentLecture\<close> from it throws before anything is stored for the course. The
  assignment \<^verbatim>\<open>newState[code] = { present, total }\<close> of line 179 adds or replaces the
  own property \<open>code\<close>, except for \<^verbatim>\<open>__proto__\<close>, where it replaces the prototype of
  \<^verbatim>\<open>newState\<close> and adds no property.
\<close>

definition processCourse :: "snapshot \<Rightarrow> loop_state \<Rightarrow> course \<Rightarrow> error + loop_state" where
  "processCourse prevState st c =
     (let code = courseCode c in
      case studentCourseCompDetails c of
        [] \<Rightarrow> Inl TypeError
      | comp0 # _ \<Rightarrow>
          (let p = presentLecture comp0;
               t = totalLecture comp0;
               cur = \<lparr>present = p, total = t\<rparr>;
               st1 = (if code = ''__proto__'' then st
                      else st\<lparr>newState := (newState st)(code \<mapsto> cur)\<rparr>);
               old = oldCounters prevState code;
               status = changeStatus old cur
           in if status \<noteq> Unchanged then
                Inr (st1\<lparr>sent := sent st1 @
                       [\<lparr>noteCode = code, noteStatus = status,
                         noteMsg = calculateAttendanceMessageDouble (courseName c) p t status\<rparr>]\<rparr>)
              else Inr st1))"

text \<open>
  The \<^verbatim>\<open>for ... of\<close> loop: the exception leaves the loop, and the messages sent before it
  stay sent while the state built so far is dropped (the \<^verbatim>\<open>catch\<close> block stores nothing).
\<close>

fun processCourses ::
    "snapshot \<Rightarrow> loop_state \<Rightarrow> course list \<Rightarrow> (error \<times> notification list) + loop_state" where
  "processCourses prevState st [] = Inr st"
| "processCourses prevState st (c # cs) =
     (case processCourse prevState st c of
        Inl e \<Rightarrow> Inl (e, sent st)
      | Inr st' \<Rightarrow> processCourses prevState st' cs)"

text \<open>Steps 3 and 4 of the function: the loop run from \<^verbatim>\<open>newState = {}\<close>.\<close>

definition checkAttendance ::
    "snapshot \<Rightarrow> course list \<Rightarrow> (error \<times> notification list) + loop_state" where
  "checkAttendance prevState courses =
     processCourses prevState \<lparr>newState = Map.empty, sent = []\<rparr> courses"

section \<open>Vocabulary of the statements\<close>

text \<open>
  The counters the loop reads from a course; meaningful when the course has at least one
  entry in \<^verbatim>\<open>studentCourseCompDetails\<close>.
\<close>

definition currentCounters :: "course \<Rightarrow> counters" where
  "currentCounters c =
     (let comp0 = hd (studentCourseCompDetails c)
      in \<lparr>present = presentLecture comp0, total = totalLecture comp0\<rparr>)"

text \<open>The status the loop decides for a course, against the stored state.\<close>

definition courseStatus :: "snapshot \<Rightarrow> course \<Rightarrow> ChangeStatus" where
  "courseStatus prevState c =
     changeStatus (oldCounters prevState (courseCode c)) (currentCounters c)"

text \<open>What the loop emits for a changed course.\<close>

definition noteFor :: "snapshot \<Rightarrow> course \<Rightarrow> notification" where
  "noteFor prevState c =
     \<lparr>noteCode = courseCode c, noteStatus = courseStatus prevState c,
      noteMsg = calculateAttendanceMessageDouble (courseName c)
                  (present (currentCounters c)) (total (currentCounters c))
                  (courseStatus prevState c)\<rparr>"

text \<open>Every course of the list carries counters, so that the loop body does not throw.\<close>

definition wellFormed :: "course list \<Rightarrow> bool" where
  "wellFormed courses = list_all (\<lambda>c. studentCourseCompDetails c \<noteq> []) courses"

text \<open>The assignments of line 179 for a list of courses, in order.\<close>

fun stored :: "snapshot \<Rightarrow> course list \<Rightarrow> snapshot" where
  "stored m [] = m"
| "stored m (c # cs) =
     stored (if courseCode c = ''__proto__'' then m
             else m(courseCode c \<mapsto> currentCounters c)) cs"

text \<open>A course with a single entry of counters, for the examples.\<close>

definition mkCourse :: "string \<Rightarrow> string \<Rightarrow> int \<Rightarrow> int \<Rightarrow> course" where
  "mkCourse code name p t =
     \<lparr>courseCode = code, courseName = name,
      studentCourseCompDetails = [\<lparr>presentLecture = p, totalLecture = t\<rparr>]\<rparr>"

section \<open>Auxiliary facts\<close>

subsection \<open>The exact reading\<close>

lemma percentage_calc:
  "percentage (calculateAttendanceMessage c p t s) =
     (if t > 0 then of_int p / of_int t * 100 else 0)"
  by (simp add: calculateAttendanceMessage_def Let_def)

lemma severity_calc:
  "severity (calculateAttendanceMessage c p t s) =
     (if percentage (calculateAttendanceMessage c p t s) < 75 then Critical else Secure)"
  by (simp add: calculateAttendanceMessage_def Let_def)

lemma actionCount_calc:
  "actionCount (calculateAttendanceMessage c p t s) =
     (if percentage (calculateAttendanceMessage c p t s) < 75
      then max 0 \<lceil>(0.75 * of_int t - of_int p) / (0.25 :: rat)\<rceil>
      else max 0 \<lfloor>of_int p / 0.75 - (of_int t :: rat)\<rfloor>)"
  by (simp add: calculateAttendanceMessage_def Let_def)

lemma ceil_needed: "\<lceil>(0.75 * of_int t - of_int p) / (0.25 :: rat)\<rceil> = 3 * t - 4 * p"
proof -
  have "(0.75 * of_int t - of_int p) / (0.25 :: rat) = of_int (3 * t - 4 * p)"
    by (simp add: field_simps)
  then show ?thesis by (simp only: ceiling_of_int)
qed

lemma floor_skippable: "\<lfloor>of_int p / 0.75 - (of_int t :: rat)\<rfloor> = (4 * p) div 3 - t"
proof -
  have "of_int p / 0.75 - (of_int t :: rat) = of_int (4 * p) / of_int 3 - of_int t"
    by (simp add: field_simps)
  then show ?thesis
    by (simp only: floor_diff_of_int floor_divide_of_int_eq)
qed

lemma below_iff: "t > 0 \<Longrightarrow> ((of_int p :: rat) / of_int t * 100 < 75) = (4 * p < 3 * t)"
proof -
  assume t: "t > 0"
  have "((of_int p :: rat) / of_int t * 100 < 75) = ((of_int p :: rat) * 100 < 75 * of_int t)"
    using t by (simp add: field_simps)
  also have "\<dots> = ((of_int (4 * p) :: rat) < of_int (3 * t))"
    by simp
  also have "\<dots> = (4 * p < 3 * t)"
    by (simp only: of_int_less_iff)
  finally show ?thesis .
qed

lemma ratio_ge_iff:
  assumes "(d::int) > 0"
  shows "((of_int n :: rat) / of_int d \<ge> 3/4) = (3 * d \<le> 4 * n)"
proof -
  have "((of_int n :: rat) / of_int d \<ge> 3/4) = ((of_int (3 * d) :: rat) \<le> of_int (4 * n))"
    using assms by (simp add: field_simps)
  also have "\<dots> = (3 * d \<le> 4 * n)"
    by (simp only: of_int_le_iff)
  finally show ?thesis .
qed

subsection \<open>The binary exponent\<close>

lemma of_int_bitlen_bounds:
  assumes "a > 0"
  shows "(2::rat) powi (bitlen a - 1) \<le> of_int a" and "of_int a < (2::rat) powi bitlen a"
proof -
  from bitlen_bounds [OF assms]
  have l: "2 ^ nat (bitlen a - 1) \<le> a" and u: "a < 2 ^ nat (bitlen a)"
    by simp_all
  have "bitlen a \<noteq> 0"
    using assms by (simp add: bitlen_eq_zero_iff)
  with bitlen_nonneg [of a] have pos: "bitlen a \<ge> 1"
    by simp
  have "(of_int (2 ^ nat (bitlen a - 1)) :: rat) \<le> of_int a"
    using l by (simp only: of_int_le_iff)
  then show "(2::rat) powi (bitlen a - 1) \<le> of_int a"
    using pos by (simp add: power_int_def)
  have "(of_int a :: rat) < of_int (2 ^ nat (bitlen a))"
    using u by (simp only: of_int_less_iff)
  then show "of_int a < (2::rat) powi bitlen a"
    using pos by (simp add: power_int_def)
qed

lemma exponent_bounds:
  assumes "x \<noteq> 0"
  shows "2 powi exponent x \<le> \<bar>x\<bar>" and "\<bar>x\<bar> < 2 powi (exponent x + 1)"
proof -
  obtain a b where q: "quotient_of \<bar>x\<bar> = (a, b)"
    by (cases "quotient_of \<bar>x\<bar>")
  have b: "b > 0" by (rule quotient_of_denom_pos [OF q])
  have x: "\<bar>x\<bar> = of_int a / of_int b" by (rule quotient_of_div [OF q])
  have "\<bar>x\<bar> > 0" using assms by simp
  with x b have a: "a > 0"
    by (simp add: zero_less_divide_iff)
  let ?e = "bitlen a - bitlen b"
  note ba = of_int_bitlen_bounds [OF a] and bb = of_int_bitlen_bounds [OF b]
  have bpos: "(of_int b :: rat) > 0" using b by simp
  have "(2::rat) powi (?e - 1) * of_int b < 2 powi (?e - 1) * 2 powi bitlen b"
    using bb(2) by simp
  also have "\<dots> = 2 powi (bitlen a - 1)"
    by (simp add: power_int_add [symmetric])
  also have "\<dots> \<le> of_int a" by (rule ba(1))
  finally have lo: "(2::rat) powi (?e - 1) < \<bar>x\<bar>"
    using bpos by (simp add: x pos_less_divide_eq)
  have "(of_int a :: rat) < 2 powi bitlen a" by (rule ba(2))
  also have "\<dots> = 2 powi (?e + 1) * 2 powi (bitlen b - 1)"
    by (simp add: power_int_add [symmetric])
  also have "\<dots> \<le> 2 powi (?e + 1) * of_int b"
    using bb(1) by simp
  finally have hi: "\<bar>x\<bar> < (2::rat) powi (?e + 1)"
    using bpos by (simp add: x pos_divide_less_eq)
  have ex: "exponent x = (if 2 powi ?e \<le> \<bar>x\<bar> then ?e else ?e - 1)"
    by (simp add: exponent_def q Let_def)
  show "2 powi exponent x \<le> \<bar>x\<bar>"
    using lo by (simp add: ex)
  show "\<bar>x\<bar> < 2 powi (exponent x + 1)"
    using hi by (simp add: ex not_le)
qed

lemma powi2_less_cancel:
  assumes "(2::rat) powi m < 2 powi n"
  shows "m < n"
proof (rule ccontr)
  assume "\<not> m < n"
  then have "(2::rat) powi n \<le> 2 powi m"
    by (intro power_int_increasing) simp_all
  with assms show False by simp
qed

lemma exponent_eqI:
  assumes "2 powi e \<le> \<bar>x\<bar>" and "\<bar>x\<bar> < 2 powi (e + 1)"
  shows "exponent x = e"
proof -
  have "(0::rat) < 2 powi e"
    by simp
  also note assms(1)
  finally have nz: "x \<noteq> 0"
    by simp
  note b = exponent_bounds [OF nz]
  have "(2::rat) powi e < 2 powi (exponent x + 1)"
    using assms(1) b(2) by simp
  then have 1: "e < exponent x + 1"
    by (rule powi2_less_cancel)
  have "(2::rat) powi exponent x < 2 powi (e + 1)"
    using assms(2) b(1) by simp
  then have 2: "exponent x < e + 1"
    by (rule powi2_less_cancel)
  from 1 2 show ?thesis by simp
qed

lemma powi2_split:
  assumes "k \<le> j"
  shows "(2::rat) powi j = of_int (2 ^ nat (j - k)) * 2 powi k"
proof -
  have "(2::rat) powi j = 2 powi ((j - k) + k)" by simp
  also have "\<dots> = 2 powi (j - k) * 2 powi k"
    by (rule power_int_add) simp
  also have "(2::rat) powi (j - k) = 2 ^ nat (j - k)"
    using assms by (simp add: power_int_nonneg_exp)
  finally show ?thesis by simp
qed

subsection \<open>Rounding to the nearest integer\<close>

lemma roundEven_le:
  assumes "x \<le> of_int n"
  shows "roundEven x \<le> n"
proof (cases "\<lfloor>x\<rfloor> + 1 \<le> n")
  case True
  have "roundEven x \<le> \<lfloor>x\<rfloor> + 1"
    by (simp add: roundEven_def Let_def)
  with True show ?thesis by simp
next
  case False
  moreover have "\<lfloor>x\<rfloor> \<le> n"
    using assms by (simp add: floor_le_iff)
  ultimately have f: "\<lfloor>x\<rfloor> = n" by simp
  then have "of_int n \<le> x"
    using of_int_floor_le [of x] by simp
  with assms have "x = of_int n" by simp
  then show ?thesis
    by (simp add: roundEven_def Let_def)
qed

lemma roundEven_ge:
  assumes "of_int n \<le> x"
  shows "n \<le> roundEven x"
proof -
  have "n \<le> \<lfloor>x\<rfloor>"
    using assms by (simp add: le_floor_iff)
  moreover have "\<lfloor>x\<rfloor> \<le> roundEven x"
    by (simp add: roundEven_def Let_def)
  ultimately show ?thesis by simp
qed

lemma roundEven_eqI:
  assumes "\<bar>x - of_int n\<bar> < 1 / 2"
  shows "roundEven x = n"
proof (cases "of_int n \<le> x")
  case True
  with assms have f: "\<lfloor>x\<rfloor> = n"
    by (intro floor_unique) (simp_all add: abs_less_iff)
  with assms True show ?thesis
    by (simp add: roundEven_def Let_def abs_less_iff)
next
  case False
  with assms have f: "\<lfloor>x\<rfloor> = n - 1"
    by (intro floor_unique) (simp_all add: abs_less_iff)
  with assms False show ?thesis
    by (simp add: roundEven_def Let_def abs_less_iff)
qed

subsection \<open>Rounding to the nearest double\<close>

lemma toDouble_zero: "toDouble 0 = 0"
  by (simp add: toDouble_def)

lemma toDouble_grid_le:
  assumes "x \<noteq> 0" and "x \<le> of_int n * 2 powi (exponent x - 52)"
  shows "toDouble x \<le> of_int n * 2 powi (exponent x - 52)"
proof -
  let ?u = "(2::rat) powi (exponent x - 52)"
  have u: "?u > 0" by simp
  from assms(2) have "x / ?u \<le> of_int n"
    using u by (simp add: pos_divide_le_eq)
  then have "roundEven (x / ?u) \<le> n"
    by (rule roundEven_le)
  then have "(of_int (roundEven (x / ?u)) :: rat) \<le> of_int n"
    by (simp only: of_int_le_iff)
  then have "of_int (roundEven (x / ?u)) * ?u \<le> of_int n * ?u"
    using u by (simp only: mult_le_cancel_right_pos)
  then show ?thesis
    using assms(1) by (simp add: toDouble_def Let_def)
qed

lemma toDouble_grid_ge:
  assumes "x \<noteq> 0" and "of_int n * 2 powi (exponent x - 52) \<le> x"
  shows "of_int n * 2 powi (exponent x - 52) \<le> toDouble x"
proof -
  let ?u = "(2::rat) powi (exponent x - 52)"
  have u: "?u > 0" by simp
  from assms(2) have "of_int n \<le> x / ?u"
    using u by (simp add: pos_le_divide_eq)
  then have "n \<le> roundEven (x / ?u)"
    by (rule roundEven_ge)
  then have "(of_int n :: rat) \<le> of_int (roundEven (x / ?u))"
    by (simp only: of_int_le_iff)
  then have "of_int n * ?u \<le> of_int (roundEven (x / ?u)) * ?u"
    using u by (simp only: mult_le_cancel_right_pos)
  then show ?thesis
    using assms(1) by (simp add: toDouble_def Let_def)
qed

text \<open>The value of \<open>toDouble\<close> at a given number, from its exponent and its neighbour.\<close>

lemma toDouble_eqI:
  assumes "2 powi e \<le> \<bar>x\<bar>" and "\<bar>x\<bar> < 2 powi (e + 1)"
    and "\<bar>x / 2 powi (e - 52) - of_int n\<bar> < 1 / 2"
  shows "toDouble x = of_int n * 2 powi (e - 52)"
proof -
  have e: "exponent x = e"
    using assms(1,2) by (rule exponent_eqI)
  have "(0::rat) < 2 powi e" by simp
  also note assms(1)
  finally have nz: "x \<noteq> 0" by simp
  have "roundEven (x / 2 powi (e - 52)) = n"
    using assms(3) by (rule roundEven_eqI)
  then show ?thesis
    using nz by (simp add: toDouble_def Let_def e)
qed

text \<open>Rounding a positive number does not cross a double.\<close>

lemma pos_no_cross:
  assumes x: "0 < x" and m: "0 < m" "m \<le> 2 ^ 53" and c: "c = of_int m * 2 powi j"
  shows "x \<le> c \<Longrightarrow> toDouble x \<le> c" and "c \<le> x \<Longrightarrow> c \<le> toDouble x"
proof -
  let ?e = "exponent x"
  let ?u = "(2::rat) powi (?e - 52)"
  have nz: "x \<noteq> 0" using x by simp
  have lo: "2 powi ?e \<le> x"
    using exponent_bounds(1) [OF nz] x by simp
  have binade: "(2::rat) powi ?e = of_int (2 ^ 52) * ?u"
    by (simp add: power_int_diff)
  have start_le: "2 powi ?e \<le> toDouble x"
    using toDouble_grid_ge [OF nz, of "2 ^ 52"] lo binade by simp
  have start_ge: "toDouble x \<le> 2 powi ?e" if "x \<le> 2 powi ?e"
    using toDouble_grid_le [OF nz, of "2 ^ 52"] that binade by simp
  have coarse: "c \<le> 2 powi ?e" if "\<not> ?e - 52 \<le> j"
  proof -
    from that have "j + 53 \<le> ?e" by simp
    then have "(2::rat) powi (j + 53) \<le> 2 powi ?e"
      by (intro power_int_increasing) simp_all
    moreover have "c \<le> 2 powi (j + 53)"
    proof -
      have "(of_int m :: rat) \<le> of_int (2 ^ 53)"
        using m(2) by (simp only: of_int_le_iff)
      then have "of_int m * (2::rat) powi j \<le> of_int (2 ^ 53) * 2 powi j"
        by (intro mult_right_mono) simp_all
      then show ?thesis
        by (simp add: c power_int_add)
    qed
    ultimately show ?thesis by simp
  qed
  have fine: "c = of_int (m * 2 ^ nat (j - (?e - 52))) * ?u" if "?e - 52 \<le> j"
  proof -
    from that have "(2::rat) powi j = of_int (2 ^ nat (j - (?e - 52))) * ?u"
      by (rule powi2_split)
    then show ?thesis
      by (simp add: c)
  qed
  show "toDouble x \<le> c" if "x \<le> c"
  proof (cases "?e - 52 \<le> j")
    case True
    with that fine toDouble_grid_le [OF nz, of "m * 2 ^ nat (j - (?e - 52))"] show ?thesis
      by simp
  next
    case False
    with coarse that lo have "x \<le> 2 powi ?e" "2 powi ?e \<le> c" by simp_all
    with start_ge show ?thesis by simp
  qed
  show "c \<le> toDouble x" if "c \<le> x"
  proof (cases "?e - 52 \<le> j")
    case True
    with that fine toDouble_grid_ge [OF nz, of "m * 2 ^ nat (j - (?e - 52))"] show ?thesis
      by simp
  next
    case False
    with coarse start_le show ?thesis by simp
  qed
qed

lemma toDouble_nonpos:
  assumes "x \<le> 0"
  shows "toDouble x \<le> 0"
proof (cases "x = 0")
  case True
  then show ?thesis by (simp add: toDouble_zero)
next
  case False
  with assms toDouble_grid_le [of x 0] show ?thesis by simp
qed

lemma toDouble_nonneg:
  assumes "0 \<le> x"
  shows "0 \<le> toDouble x"
proof (cases "x = 0")
  case True
  then show ?thesis by (simp add: toDouble_zero)
next
  case False
  with assms toDouble_grid_ge [of x 0] show ?thesis by simp
qed

lemma toDouble_le_double:
  assumes "0 < m" and "m \<le> 2 ^ 53" and "x \<le> of_int m * 2 powi j"
  shows "toDouble x \<le> of_int m * 2 powi j"
proof (cases "0 < x")
  case True
  from pos_no_cross(1) [OF True assms(1,2) refl assms(3)] show ?thesis .
next
  case False
  then have "toDouble x \<le> 0"
    by (intro toDouble_nonpos) simp
  moreover have "(0::rat) < of_int m * 2 powi j"
    using assms(1) by simp
  ultimately show ?thesis by simp
qed

lemma toDouble_ge_double:
  assumes "0 < m" and "m \<le> 2 ^ 53" and "of_int m * 2 powi j \<le> x"
  shows "of_int m * 2 powi j \<le> toDouble x"
proof -
  have "(0::rat) < of_int m * 2 powi j"
    using assms(1) by simp
  with assms(3) have x: "0 < x" by simp
  from pos_no_cross(2) [OF x assms(1,2) refl assms(3)] show ?thesis .
qed

text \<open>A double is its own rounding.\<close>

lemma toDouble_exact:
  assumes "0 \<le> m" and "m \<le> 2 ^ 53"
  shows "toDouble (of_int m * 2 powi j) = of_int m * 2 powi j"
proof (cases "m = 0")
  case True
  then show ?thesis by (simp add: toDouble_zero)
next
  case False
  with assms(1) have m: "0 < m" by simp
  have "toDouble (of_int m * 2 powi j) \<le> of_int m * 2 powi j"
    by (rule toDouble_le_double [OF m assms(2)]) simp
  moreover have "of_int m * 2 powi j \<le> toDouble (of_int m * 2 powi j)"
    by (rule toDouble_ge_double [OF m assms(2)]) simp
  ultimately show ?thesis by simp
qed

lemma toDouble_of_int:
  assumes "0 \<le> m" and "m \<le> 2 ^ 53"
  shows "toDouble (of_int m) = of_int m"
  using toDouble_exact [OF assms, of 0] by simp

lemma toDouble_quarters:
  assumes "0 \<le> m" and "m \<le> 2 ^ 53"
  shows "toDouble (of_int m / 4) = of_int m / 4"
  using toDouble_exact [OF assms, of "- 2"] by simp

subsection \<open>The calculator in doubles\<close>

lemma percentage_double:
  "percentage (calculateAttendanceMessageDouble c p t s) =
     (if t > 0 then toDouble (toDouble (of_int p / of_int t) * 100) else 0)"
  by (simp add: calculateAttendanceMessageDouble_def Let_def)

lemma severity_double:
  "severity (calculateAttendanceMessageDouble c p t s) =
     (if percentage (calculateAttendanceMessageDouble c p t s) < 75 then Critical else Secure)"
  by (simp add: calculateAttendanceMessageDouble_def Let_def)

lemma actionCount_double:
  "actionCount (calculateAttendanceMessageDouble c p t s) =
     (if percentage (calculateAttendanceMessageDouble c p t s) < 75
      then max 0 \<lceil>toDouble (toDouble (toDouble (0.75 * of_int t) - of_int p) / 0.25)\<rceil>
      else max 0 \<lfloor>toDouble (toDouble (of_int p / 0.75) - of_int t)\<rfloor>)"
  by (simp add: calculateAttendanceMessageDouble_def Let_def)

text \<open>The percentage of line 102 in doubles, on either side of the threshold.\<close>

lemma percentage_double_below:
  assumes t: "0 < t" "t \<le> 2 ^ 50" and lt: "4 * p < 3 * t"
  shows "toDouble (toDouble (of_int p / of_int t) * 100) < 75"
proof -
  let ?c = "of_int (3 * 2 ^ 50 - 1) * (2::rat) powi (- 52)"
  let ?d = "of_int (75 * 2 ^ 46 - 1) * (2::rat) powi (- 46)"
  have "p * 2 ^ 52 \<le> (3 * 2 ^ 50 - 1) * t"
    using t lt by simp
  then have "(of_int (p * 2 ^ 52) :: rat) \<le> of_int ((3 * 2 ^ 50 - 1) * t)"
    by (simp only: of_int_le_iff)
  then have "(of_int p :: rat) / of_int t \<le> ?c"
    using t(1) by (simp add: field_simps)
  then have q: "toDouble (of_int p / of_int t) \<le> ?c"
    by (intro toDouble_le_double) simp_all
  have "?c * 100 \<le> ?d" by simp
  with q have "toDouble (of_int p / of_int t) * 100 \<le> ?d"
    by simp
  then have "toDouble (toDouble (of_int p / of_int t) * 100) \<le> ?d"
    by (intro toDouble_le_double) simp_all
  moreover have "?d < 75" by simp
  ultimately show ?thesis by simp
qed

lemma percentage_double_above:
  assumes t: "0 < t" and ge: "3 * t \<le> 4 * p"
  shows "75 \<le> toDouble (toDouble (of_int p / of_int t) * 100)"
proof -
  have "(of_int (3 * t) :: rat) \<le> of_int (4 * p)"
    using ge by (simp only: of_int_le_iff)
  then have "of_int 3 * (2::rat) powi (- 2) \<le> of_int p / of_int t"
    using t by (simp add: field_simps)
  then have "of_int 3 * (2::rat) powi (- 2) \<le> toDouble (of_int p / of_int t)"
    by (intro toDouble_ge_double) simp_all
  then have "of_int 75 * (2::rat) powi 0 \<le> toDouble (of_int p / of_int t) * 100"
    by simp
  then have "of_int 75 * (2::rat) powi 0 \<le> toDouble (toDouble (of_int p / of_int t) * 100)"
    by (intro toDouble_ge_double) simp_all
  then show ?thesis by simp
qed

text \<open>Line 118 in doubles is exact for counters up to \<open>2 ^ 50\<close>.\<close>

lemma needed_double:
  assumes t: "0 < t" "t \<le> 2 ^ 50" and p: "- (2 ^ 50) \<le> p" and lt: "4 * p < 3 * t"
  shows "\<lceil>toDouble (toDouble (toDouble (0.75 * of_int t) - of_int p) / 0.25)\<rceil> = 3 * t - 4 * p"
proof -
  have e1: "(0.75::rat) * of_int t = of_int (3 * t) / 4" by simp
  have e2: "(of_int (3 * t) :: rat) / 4 - of_int p = of_int (3 * t - 4 * p) / 4" by simp
  have e3: "(of_int (3 * t - 4 * p) :: rat) / 4 / 0.25 = of_int (3 * t - 4 * p)" by simp
  have 1: "toDouble (0.75 * of_int t) = of_int (3 * t) / 4"
    unfolding e1 using t by (intro toDouble_quarters) simp_all
  have 2: "toDouble (of_int (3 * t) / 4 - of_int p) = of_int (3 * t - 4 * p) / 4"
    unfolding e2 using t p lt by (intro toDouble_quarters) simp_all
  have 3: "toDouble (of_int (3 * t - 4 * p) / 4 / 0.25) = of_int (3 * t - 4 * p)"
    unfolding e3 using t p lt by (intro toDouble_of_int) simp_all
  show ?thesis
    by (simp only: 1 2 3 ceiling_of_int)
qed

text \<open>Line 123 in doubles gives the exact floor for counters up to \<open>2 ^ 50\<close>.\<close>

lemma skippable_double:
  assumes t: "0 < t" and p: "p \<le> 2 ^ 50" and ge: "3 * t \<le> 4 * p"
  shows "\<lfloor>toDouble (toDouble (of_int p / 0.75) - of_int t)\<rfloor> = (4 * p) div 3 - t"
proof -
  define k where "k = (4 * p) div 3"
  let ?a = "toDouble (of_int p / 0.75)"
  have k: "3 * k \<le> 4 * p" "4 * p \<le> 3 * k + 2" "t \<le> k" "0 < k"
    using t ge unfolding k_def by presburger+
  have x: "(of_int p :: rat) / 0.75 = of_int (4 * p) / 3" by simp
  have "(of_int (3 * k) :: rat) \<le> of_int (4 * p)"
    using k(1) by (simp only: of_int_le_iff)
  then have lo: "of_int k * (2::rat) powi 0 \<le> of_int p / 0.75"
    by (simp add: x)
  have "4 * (4 * p) \<le> 3 * (4 * k + 3)"
    using k(2) by arith
  then have "(of_int (4 * (4 * p)) :: rat) \<le> of_int (3 * (4 * k + 3))"
    by (simp only: of_int_le_iff)
  then have hi: "of_int p / 0.75 \<le> of_int (4 * k + 3) * (2::rat) powi (- 2)"
    by (simp add: x)
  have kb: "k \<le> 2 ^ 53" "0 < 4 * k + 3" "4 * k + 3 \<le> 2 ^ 53"
    "k - t \<le> 2 ^ 53" "0 < 4 * (k - t) + 3" "4 * (k - t) + 3 \<le> 2 ^ 53"
    using k(1,3,4) p t by simp_all
  have a_lo: "of_int k * (2::rat) powi 0 \<le> ?a"
    by (rule toDouble_ge_double [OF k(4) kb(1) lo])
  have a_hi: "?a \<le> of_int (4 * k + 3) * (2::rat) powi (- 2)"
    by (rule toDouble_le_double [OF kb(2,3) hi])
  have d_lo: "of_int (k - t) * (2::rat) powi 0 \<le> ?a - of_int t"
    using a_lo by simp
  have d_hi: "?a - of_int t \<le> of_int (4 * (k - t) + 3) * (2::rat) powi (- 2)"
    using a_hi by simp
  have r_lo: "of_int (k - t) \<le> toDouble (?a - of_int t)"
  proof (cases "k = t")
    case True
    with d_lo have "0 \<le> ?a - of_int t" by simp
    then have "0 \<le> toDouble (?a - of_int t)" by (rule toDouble_nonneg)
    with True show ?thesis by simp
  next
    case False
    with k(3) have "0 < k - t" by simp
    from toDouble_ge_double [OF this kb(4) d_lo] show ?thesis by simp
  qed
  have r_hi: "toDouble (?a - of_int t) \<le> of_int (4 * (k - t) + 3) * (2::rat) powi (- 2)"
    by (rule toDouble_le_double [OF kb(5,6) d_hi])
  have "toDouble (?a - of_int t) < of_int (k - t) + 1"
  proof -
    have "of_int (4 * (k - t) + 3) * (2::rat) powi (- 2) < of_int (k - t) + 1"
      by simp
    with r_hi show ?thesis by simp
  qed
  with r_lo have "\<lfloor>toDouble (?a - of_int t)\<rfloor> = k - t"
    by (intro floor_unique) simp_all
  then show ?thesis
    by (simp only: k_def)
qed

text \<open>
  For counters up to \<open>2 ^ 50\<close> the rounding changes neither the branch taken nor the count
  printed.
\<close>

lemma double_agrees_exact:
  assumes "0 < t" and "t \<le> 2 ^ 50" and "- (2 ^ 50) \<le> p" and "p \<le> 2 ^ 50"
  shows "severity (calculateAttendanceMessageDouble c p t s) =
           severity (calculateAttendanceMessage c p t s) \<and>
         actionCount (calculateAttendanceMessageDouble c p t s) =
           actionCount (calculateAttendanceMessage c p t s)"
proof (cases "4 * p < 3 * t")
  case True
  have d: "percentage (calculateAttendanceMessageDouble c p t s) < 75"
    using assms(1,2) True by (simp add: percentage_double percentage_double_below)
  have e: "percentage (calculateAttendanceMessage c p t s) < 75"
    using assms(1) True below_iff [of t p] by (simp add: percentage_calc)
  have "actionCount (calculateAttendanceMessageDouble c p t s) = max 0 (3 * t - 4 * p)"
    using d by (simp only: actionCount_double if_True needed_double [OF assms(1,2,3) True])
  moreover have "actionCount (calculateAttendanceMessage c p t s) = max 0 (3 * t - 4 * p)"
    using e by (simp only: actionCount_calc if_True ceil_needed)
  ultimately show ?thesis
    using d e by (simp only: severity_double severity_calc if_True simp_thms)
next
  case False
  then have ge: "3 * t \<le> 4 * p" by simp
  have d: "\<not> percentage (calculateAttendanceMessageDouble c p t s) < 75"
    using assms(1) percentage_double_above [OF assms(1) ge]
    by (simp add: percentage_double not_less)
  have e: "\<not> percentage (calculateAttendanceMessage c p t s) < 75"
    using assms(1) False below_iff [of t p] by (simp add: percentage_calc)
  have "actionCount (calculateAttendanceMessageDouble c p t s) = max 0 ((4 * p) div 3 - t)"
    using d by (simp only: actionCount_double if_False skippable_double [OF assms(1,4) ge])
  moreover have "actionCount (calculateAttendanceMessage c p t s) = max 0 ((4 * p) div 3 - t)"
    using e by (simp only: actionCount_calc if_False floor_skippable)
  ultimately show ?thesis
    using d e by (simp only: severity_double severity_calc if_False simp_thms)
qed

text \<open>
  The zero-total guard, the clamp of the count and the strict threshold do not depend on
  the rounding.
\<close>

lemma double_safe_and_strict:
  "percentage (calculateAttendanceMessageDouble c p 0 s) = 0 \<and>
   0 \<le> actionCount (calculateAttendanceMessageDouble c p t s) \<and>
   (severity (calculateAttendanceMessageDouble c p t s) = Critical \<longleftrightarrow>
      percentage (calculateAttendanceMessageDouble c p t s) < 75)"
  by (simp add: percentage_double actionCount_double severity_double)

lemma toDouble_neg_strict:
  assumes "x < 0"
  shows "toDouble x < 0"
proof -
  let ?u = "(2::rat) powi (exponent x - 52)"
  have nz: "x \<noteq> 0" using assms by simp
  have "?u \<le> 2 powi exponent x"
    by (intro power_int_increasing) simp_all
  also have "\<dots> \<le> \<bar>x\<bar>"
    by (rule exponent_bounds(1) [OF nz])
  finally have "x \<le> of_int (- 1) * ?u"
    using assms by simp
  then have "toDouble x \<le> of_int (- 1) * ?u"
    by (rule toDouble_grid_le [OF nz])
  moreover have "of_int (- 1) * ?u < 0"
    by simp
  ultimately show ?thesis by (rule le_less_trans)
qed

text \<open>
  The range of the percentage in doubles, for totals up to \<open>2 ^ 50\<close>: as in the exact
  reading.
\<close>

lemma percentage_double_in_range_iff:
  assumes "t \<le> 2 ^ 50"
  shows "(0 \<le> percentage (calculateAttendanceMessageDouble c p t s) \<and>
          percentage (calculateAttendanceMessageDouble c p t s) \<le> 100) \<longleftrightarrow>
         (t \<le> 0 \<or> (0 \<le> p \<and> p \<le> t))"
proof (cases "0 < t")
  case False
  then show ?thesis by (simp add: percentage_double)
next
  case True
  let ?q = "toDouble (of_int p / of_int t)"
  have pc: "percentage (calculateAttendanceMessageDouble c p t s) = toDouble (?q * 100)"
    using True by (simp add: percentage_double)
  consider "p < 0" | "0 \<le> p" "p \<le> t" | "t < p" by linarith
  then show ?thesis
  proof cases
    case 1
    with True have "(of_int p :: rat) / of_int t < 0"
      by (simp add: divide_neg_pos)
    then have "?q < 0" by (rule toDouble_neg_strict)
    then have "?q * 100 < 0" by simp
    then have "toDouble (?q * 100) < 0" by (rule toDouble_neg_strict)
    with 1 True show ?thesis by (simp add: pc)
  next
    case 2
    with True have lo: "0 \<le> (of_int p :: rat) / of_int t"
      and hi: "(of_int p :: rat) / of_int t \<le> of_int 1 * 2 powi 0"
      by simp_all
    have q0: "0 \<le> ?q" using lo by (rule toDouble_nonneg)
    have q1: "?q \<le> of_int 1 * 2 powi 0"
      using hi by (intro toDouble_le_double) simp_all
    have "0 \<le> ?q * 100" using q0 by simp
    then have r0: "0 \<le> toDouble (?q * 100)" by (rule toDouble_nonneg)
    have "?q * 100 \<le> of_int 100 * 2 powi 0" using q1 by simp
    then have "toDouble (?q * 100) \<le> of_int 100 * 2 powi 0"
      by (intro toDouble_le_double) simp_all
    with r0 2 True show ?thesis by (simp add: pc)
  next
    case 3
    have "(2 ^ 50 + 1) * t \<le> 2 ^ 50 * p"
      using 3 assms True by simp
    then have "(of_int ((2 ^ 50 + 1) * t) :: rat) \<le> of_int (2 ^ 50 * p)"
      by (simp only: of_int_le_iff)
    then have "of_int (2 ^ 50 + 1) * (2::rat) powi (- 50) \<le> of_int p / of_int t"
      using True by (simp add: field_simps)
    then have "of_int (2 ^ 50 + 1) * (2::rat) powi (- 50) \<le> ?q"
      by (intro toDouble_ge_double) simp_all
    moreover have "of_int (100 * 2 ^ 44 + 1) * (2::rat) powi (- 44) \<le>
        of_int (2 ^ 50 + 1) * 2 powi (- 50) * 100"
      by simp
    ultimately have "of_int (100 * 2 ^ 44 + 1) * (2::rat) powi (- 44) \<le> ?q * 100"
      by simp
    then have "of_int (100 * 2 ^ 44 + 1) * (2::rat) powi (- 44) \<le> toDouble (?q * 100)"
      by (intro toDouble_ge_double) simp_all
    moreover have "(100::rat) < of_int (100 * 2 ^ 44 + 1) * 2 powi (- 44)"
      by simp
    ultimately have "100 < toDouble (?q * 100)" by simp
    with 3 True show ?thesis by (simp add: pc)
  qed
qed

subsection \<open>The loop\<close>

lemma mkCourse_simps:
  "courseCode (mkCourse code name p t) = code"
  "courseName (mkCourse code name p t) = name"
  "studentCourseCompDetails (mkCourse code name p t) = [\<lparr>presentLecture = p, totalLecture = t\<rparr>]"
  "currentCounters (mkCourse code name p t) = \<lparr>present = p, total = t\<rparr>"
  by (simp_all add: mkCourse_def currentCounters_def)

lemma processCourse_wf:
  assumes "studentCourseCompDetails c \<noteq> []"
  shows "processCourse prevState st c =
           Inr (st\<lparr>newState := stored (newState st) [c],
                   sent := sent st @
                     (if courseStatus prevState c \<noteq> Unchanged then [noteFor prevState c] else [])\<rparr>)"
proof -
  from assms obtain comp0 rest where cd: "studentCourseCompDetails c = comp0 # rest"
    by (cases "studentCourseCompDetails c") auto
  then have cur: "currentCounters c = \<lparr>present = presentLecture comp0, total = totalLecture comp0\<rparr>"
    by (simp add: currentCounters_def)
  show ?thesis
    by (simp add: processCourse_def cd Let_def noteFor_def courseStatus_def cur)
qed

lemma processCourses_wf:
  "wellFormed cs \<Longrightarrow>
   processCourses prevState st cs =
     Inr (st\<lparr>newState := stored (newState st) cs,
             sent := sent st @
               map (noteFor prevState) (filter (\<lambda>c. courseStatus prevState c \<noteq> Unchanged) cs)\<rparr>)"
proof (induction cs arbitrary: st)
  case Nil
  then show ?case by simp
next
  case (Cons c cs)
  then have c: "studentCourseCompDetails c \<noteq> []" and cs: "wellFormed cs"
    by (simp_all add: wellFormed_def)
  define st1 where
    "st1 = st\<lparr>newState := stored (newState st) [c],
              sent := sent st @
                (if courseStatus prevState c \<noteq> Unchanged then [noteFor prevState c] else [])\<rparr>"
  have "processCourses prevState st (c # cs) = processCourses prevState st1 cs"
    by (simp add: processCourse_wf [OF c] st1_def)
  also have "\<dots> =
      Inr (st1\<lparr>newState := stored (newState st1) cs,
               sent := sent st1 @
                 map (noteFor prevState)
                   (filter (\<lambda>c. courseStatus prevState c \<noteq> Unchanged) cs)\<rparr>)"
    by (rule Cons.IH [OF cs])
  also have "newState st1 = stored (newState st) [c]"
    by (simp add: st1_def)
  finally show ?case
    by (simp add: st1_def fun_upd_def)
qed

lemma checkAttendance_wf:
  "wellFormed cs \<Longrightarrow>
   checkAttendance prevState cs =
     Inr \<lparr>newState = stored Map.empty cs,
          sent = map (noteFor prevState) (filter (\<lambda>c. courseStatus prevState c \<noteq> Unchanged) cs)\<rparr>"
  by (simp add: checkAttendance_def processCourses_wf)

lemma stored_append: "stored m (xs @ ys) = stored (stored m xs) ys"
  by (induction xs arbitrary: m) simp_all

lemma stored_other: "code \<notin> courseCode ` set cs \<Longrightarrow> stored m cs code = m code"
  by (induction cs arbitrary: m) simp_all

lemma stored_proto: "stored m cs ''__proto__'' = m ''__proto__''"
  by (induction cs arbitrary: m) simp_all

lemma dom_stored: "dom (stored m cs) = dom m \<union> (courseCode ` set cs - {''__proto__''})"
  by (induction cs arbitrary: m) auto




text \<open>
  Apart from the inherited names, the status is the four-way case analysis against the
  stored entry or, without one, against zero counters.
\<close>

lemma status_cases:
  assumes "prevState code \<noteq> None \<or> code \<notin> set objectPrototypeKeys"
  shows "changeStatus (oldCounters prevState code) cur =
     (let prev = (case prevState code of Some old \<Rightarrow> old | None \<Rightarrow> \<lparr>present = 0, total = 0\<rparr>)
      in if present cur = present prev \<and> total cur = total prev then Unchanged
         else if total cur > total prev \<and> present cur > present prev then Present
         else if total cur > total prev \<and> present cur = present prev then Absent
         else Unknown)"
  using assms
  by (auto simp: changeStatus_def classify_def oldCounters_def Let_def split: option.splits)

section \<open>The claims\<close>

subsection \<open>Change classification\<close>

text \<open>
  Claim C1 says that a course absent from the previous state is classified against
  \<open>{present: 0, total: 0}\<close> by the four-way case analysis. Line 181 misses the names that
  every object inherits: for the course code \<open>constructor\<close> and an empty previous state
  the read finds the inherited member, the default is skipped, and the status is
  \<open>Unknown\<close> with a message sent, at counters 0/0 (where the claim gives \<open>Unchanged\<close>
  and no message) and at 5/10 (where the claim gives \<open>Present\<close>).
\<close>

theorem inherited_code_default_skipped:
  "oldCounters Map.empty ''constructor'' = Inherited \<and>
   classify \<lparr>present = 0, total = 0\<rparr> \<lparr>present = 0, total = 0\<rparr> = Unchanged \<and>
   processCourse Map.empty \<lparr>newState = Map.empty, sent = []\<rparr>
       (mkCourse ''constructor'' ''Maths'' 0 0) =
     Inr \<lparr>newState = [''constructor'' \<mapsto> \<lparr>present = 0, total = 0\<rparr>],
          sent = [\<lparr>noteCode = ''constructor'', noteStatus = Unknown,
                   noteMsg = calculateAttendanceMessageDouble ''Maths'' 0 0 Unknown\<rparr>]\<rparr> \<and>
   classify \<lparr>present = 0, total = 0\<rparr> \<lparr>present = 5, total = 10\<rparr> = Present \<and>
   courseStatus Map.empty (mkCourse ''constructor'' ''Maths'' 5 10) = Unknown"
  by (simp add: processCourse_def oldCounters_def changeStatus_def classify_def
      courseStatus_def objectPrototypeKeys_def mkCourse_simps Let_def)

theorem inherited_code_default_skipped_witness:
  "Map.empty ''constructor'' = (None :: counters option) \<and>
   oldCounters Map.empty ''constructor'' = Inherited \<and>
   courseStatus Map.empty (mkCourse ''constructor'' ''Maths'' 5 10) = Unknown"
  using inherited_code_default_skipped by simp

subsection \<open>Lectures needed below the threshold\<close>

text \<open>
  Claim C2 says that for every input with \<open>total > 0\<close> and a percentage below 75 the count
  printed is the least \<open>x \<ge> 0\<close> with \<open>(present + x) / (total + x) \<ge> 3/4\<close> whenever
  \<open>0 \<le> present \<le> total\<close>. In doubles this fails for large counters: with
  \<open>present = 0\<close> and \<open>total = 6004799503160663\<close> the product \<open>0.75 * total\<close> is
  rounded down, the count printed is 18014398509481988, and after that many lectures the
  attendance is still below 75 percent.
\<close>

theorem critical_actionCount_counterexample:
  "percentage (calculateAttendanceMessageDouble ''CS101'' 0 6004799503160663 Absent) < 75 \<and>
   severity (calculateAttendanceMessageDouble ''CS101'' 0 6004799503160663 Absent) = Critical \<and>
   actionCount (calculateAttendanceMessageDouble ''CS101'' 0 6004799503160663 Absent) =
     18014398509481988 \<and>
   \<not> (of_int (0 + 18014398509481988) :: rat) / of_int (6004799503160663 + 18014398509481988)
       \<ge> 3 / 4"
proof -
  let ?m = "calculateAttendanceMessageDouble ''CS101'' 0 6004799503160663 Absent"
  have pc: "percentage ?m = 0"
    by (simp add: percentage_double toDouble_zero)
  have "toDouble (0.75 * of_int 6004799503160663) = of_int 4503599627370497 * 2 powi (52 - 52)"
    by (rule toDouble_eqI) simp_all
  moreover have "of_int 4503599627370497 * (2::rat) powi (52 - 52) = of_int 4503599627370497"
    by simp
  ultimately have s1: "toDouble (0.75 * of_int 6004799503160663) = of_int 4503599627370497"
    by (simp only:)
  have e1: "(of_int 4503599627370497 :: rat) - of_int 0 = of_int 4503599627370497"
    by simp
  have s2: "toDouble (of_int 4503599627370497) = of_int 4503599627370497"
    by (rule toDouble_of_int) simp_all
  have e2: "(of_int 4503599627370497 :: rat) / 0.25 = of_int 4503599627370497 * 2 powi 2"
    by simp
  have s3: "toDouble (of_int 4503599627370497 * 2 powi 2) = of_int 4503599627370497 * 2 powi 2"
    by (rule toDouble_exact) simp_all
  have e3: "of_int 4503599627370497 * (2::rat) powi 2 = of_int 18014398509481988"
    by simp
  have "toDouble (toDouble (toDouble (0.75 * of_int 6004799503160663) - of_int 0) / 0.25) =
      of_int 4503599627370497 * 2 powi 2"
    by (simp only: s1 e1 s2 e2 s3)
  then have "\<lceil>toDouble (toDouble (toDouble (0.75 * of_int 6004799503160663) - of_int 0) / 0.25)\<rceil> =
      18014398509481988"
    by (simp only: e3 ceiling_of_int)
  moreover have "percentage ?m < 75"
    using pc by simp
  ultimately have ac: "actionCount ?m = 18014398509481988"
    by (simp only: actionCount_double if_True)
  show ?thesis
    using pc ac by (simp add: severity_double)
qed

text \<open>
  Claim C2, amended. For counters with \<open>0 < total \<le> 2 ^ 50\<close> and
  \<open>present \<ge> - 2 ^ 50\<close>, and \<open>present / total * 100 < 75\<close>: the percentage computed
  is below 75, the message is the critical one and its count is
  \<open>max(0, ceil((0.75 * total - present) / 0.25))\<close>, the exact value of the formula. For
  \<open>0 \<le> present \<le> total\<close> this count is the least \<open>x \<ge> 0\<close> with
  \<open>(present + x) / (total + x) \<ge> 3/4\<close>. For 5 of 11 lectures the count is 13.
\<close>

theorem critical_actionCount:
  assumes "0 < t" and "t \<le> 2 ^ 50" and "- (2 ^ 50) \<le> p"
    and "(of_int p :: rat) / of_int t * 100 < 75"
  shows "percentage (calculateAttendanceMessageDouble c p t s) < 75 \<and>
         severity (calculateAttendanceMessageDouble c p t s) = Critical \<and>
         actionCount (calculateAttendanceMessageDouble c p t s) =
           max 0 \<lceil>(0.75 * of_int t - of_int p) / (0.25 :: rat)\<rceil> \<and>
         (0 \<le> p \<and> p \<le> t \<longrightarrow>
            (let x = actionCount (calculateAttendanceMessageDouble c p t s)
             in 0 \<le> x \<and> (of_int (p + x) :: rat) / of_int (t + x) \<ge> 3 / 4 \<and>
                (\<forall>x'. 0 \<le> x' \<and> (of_int (p + x') :: rat) / of_int (t + x') \<ge> 3 / 4
                       \<longrightarrow> x \<le> x'))) \<and>
         (\<forall>c' s'. actionCount (calculateAttendanceMessageDouble c' 5 11 s') = 13)"
proof -
  let ?m = "calculateAttendanceMessageDouble c p t s"
  have lt: "4 * p < 3 * t"
    using assms(1,4) below_iff by simp
  have pc: "percentage ?m < 75"
    using assms(1,2) lt by (simp add: percentage_double percentage_double_below)
  have sev: "severity ?m = Critical"
    using pc by (simp add: severity_double)
  have ac': "actionCount ?m = 3 * t - 4 * p"
    using pc by (simp only: actionCount_double if_True needed_double [OF assms(1,2,3) lt]) (use lt in simp)
  have ac: "actionCount ?m = max 0 \<lceil>(0.75 * of_int t - of_int p) / (0.25 :: rat)\<rceil>"
    using ac' lt unfolding ceil_needed by simp
  have least: "0 \<le> actionCount ?m \<and>
      (of_int (p + actionCount ?m) :: rat) / of_int (t + actionCount ?m) \<ge> 3 / 4 \<and>
      (\<forall>x'. 0 \<le> x' \<and> (of_int (p + x') :: rat) / of_int (t + x') \<ge> 3 / 4
             \<longrightarrow> actionCount ?m \<le> x')"
  proof (intro conjI allI impI)
    show "0 \<le> actionCount ?m" using ac' lt by simp
    have "t + actionCount ?m > 0" using ac' lt assms(1) by simp
    then show "(of_int (p + actionCount ?m) :: rat) / of_int (t + actionCount ?m) \<ge> 3 / 4"
      using ac' by (simp only: ratio_ge_iff) simp
  next
    fix x' :: int
    assume h: "0 \<le> x' \<and> (of_int (p + x') :: rat) / of_int (t + x') \<ge> 3 / 4"
    then have "t + x' > 0" using assms(1) by simp
    with h have "3 * (t + x') \<le> 4 * (p + x')"
      by (simp only: ratio_ge_iff)
    then show "actionCount ?m \<le> x'" using ac' by simp
  qed
  have ex: "\<forall>c' s'. actionCount (calculateAttendanceMessageDouble c' 5 11 s') = 13"
  proof (intro allI)
    fix c' s'
    have b: "(0::int) < 11" "(11::int) \<le> 2 ^ 50" "- (2 ^ 50) \<le> (5::int)" "4 * (5::int) < 3 * 11"
      by simp_all
    have "percentage (calculateAttendanceMessageDouble c' 5 11 s') < 75"
      using percentage_double_below [OF b(1,2,4)] by (simp add: percentage_double)
    then show "actionCount (calculateAttendanceMessageDouble c' 5 11 s') = 13"
      by (simp only: actionCount_double if_True needed_double [OF b])
  qed
  show ?thesis
    using pc sev ac least ex by (simp add: Let_def)
qed

theorem critical_actionCount_witness:
  "(0::int) < 11 \<and> (11::int) \<le> 2 ^ 50 \<and> - (2 ^ 50) \<le> (5::int) \<and>
   (of_int 5 :: rat) / of_int 11 * 100 < 75 \<and> (0::int) \<le> 5 \<and> (5::int) \<le> 11 \<and>
   severity (calculateAttendanceMessageDouble ''CS101'' 5 11 Absent) = Critical \<and>
   actionCount (calculateAttendanceMessageDouble ''CS101'' 5 11 Absent) = 13 \<and>
   (of_int (5 + 13) :: rat) / of_int (11 + 13) \<ge> 3 / 4 \<and>
   \<not> (of_int (5 + 12) :: rat) / of_int (11 + 12) \<ge> 3 / 4"
proof -
  have h1: "(0::int) < 11" by simp
  have h2: "(11::int) \<le> 2 ^ 50" by simp
  have h3: "- (2 ^ 50) \<le> (5::int)" by simp
  have h4: "(of_int 5 :: rat) / of_int 11 * 100 < 75" by simp
  from critical_actionCount [OF h1 h2 h3 h4, of "''CS101''" Absent]
  have "severity (calculateAttendanceMessageDouble ''CS101'' 5 11 Absent) = Critical"
    and "actionCount (calculateAttendanceMessageDouble ''CS101'' 5 11 Absent) = 13"
    by simp_all
  then show ?thesis by simp
qed

subsection \<open>Lectures that can be skipped at or above the threshold\<close>

text \<open>
  Claim C3 says that for every input with \<open>total > 0\<close> and a percentage of at least 75 the
  count \<open>y\<close> printed satisfies \<open>present / (total + y) \<ge> 3/4\<close>. In doubles this fails for
  large counters: with \<open>present = 3377699720527874\<close> and \<open>total = 4503599627370000\<close>
  the quotient \<open>present / 0.75\<close> is rounded up, the count printed is 499, and after
  missing 499 lectures the attendance is below 75 percent.
\<close>

theorem secure_actionCount_counterexample:
  "\<not> percentage (calculateAttendanceMessageDouble ''CS101''
        3377699720527874 4503599627370000 Present) < 75 \<and>
   severity (calculateAttendanceMessageDouble ''CS101''
        3377699720527874 4503599627370000 Present) = Secure \<and>
   actionCount (calculateAttendanceMessageDouble ''CS101''
        3377699720527874 4503599627370000 Present) = 499 \<and>
   \<not> (of_int 3377699720527874 :: rat) / of_int (4503599627370000 + 499) \<ge> 3 / 4"
proof -
  let ?m = "calculateAttendanceMessageDouble ''CS101'' 3377699720527874 4503599627370000 Present"
  have b: "(0::int) < 4503599627370000" "3 * (4503599627370000::int) \<le> 4 * 3377699720527874"
    by simp_all
  have pc: "\<not> percentage ?m < 75"
    using percentage_double_above [OF b] by (simp add: percentage_double not_less)
  have "toDouble (of_int 3377699720527874 / 0.75) = of_int 4503599627370499 * 2 powi (52 - 52)"
    by (rule toDouble_eqI) simp_all
  moreover have "of_int 4503599627370499 * (2::rat) powi (52 - 52) = of_int 4503599627370499"
    by simp
  ultimately have s1: "toDouble (of_int 3377699720527874 / 0.75) = of_int 4503599627370499"
    by (simp only:)
  have e1: "(of_int 4503599627370499 :: rat) - of_int 4503599627370000 = of_int 499"
    by simp
  have s2: "toDouble (of_int 499) = of_int 499"
    by (rule toDouble_of_int) simp_all
  have "\<lfloor>toDouble (toDouble (of_int 3377699720527874 / 0.75) - of_int 4503599627370000)\<rfloor> = 499"
    by (simp only: s1 e1 s2 floor_of_int)
  with pc have ac: "actionCount ?m = 499"
    by (simp only: actionCount_double if_False)
  show ?thesis
    using pc ac by (simp add: severity_double)
qed

text \<open>
  Claim C3, amended. For counters with \<open>total > 0\<close> and \<open>present \<le> 2 ^ 50\<close>, and
  \<open>present / total * 100 \<ge> 75\<close>: the percentage computed is at least 75, the message is
  the secure one and its count is \<open>y = max(0, floor(present / 0.75 - total))\<close>, the exact
  value of the formula, and \<open>present / (total + y) \<ge> 3/4\<close>.
\<close>

theorem secure_actionCount:
  assumes "0 < t" and "p \<le> 2 ^ 50" and "(of_int p :: rat) / of_int t * 100 \<ge> 75"
  shows "\<not> percentage (calculateAttendanceMessageDouble c p t s) < 75 \<and>
         severity (calculateAttendanceMessageDouble c p t s) = Secure \<and>
         actionCount (calculateAttendanceMessageDouble c p t s) =
           max 0 \<lfloor>of_int p / 0.75 - (of_int t :: rat)\<rfloor> \<and>
         (let y = actionCount (calculateAttendanceMessageDouble c p t s)
          in 0 \<le> y \<and> (of_int p :: rat) / of_int (t + y) \<ge> 3 / 4)"
proof -
  let ?m = "calculateAttendanceMessageDouble c p t s"
  have ge: "3 * t \<le> 4 * p"
    using assms(1,3) below_iff [of t p] by simp
  have pc: "\<not> percentage ?m < 75"
    using assms(1) percentage_double_above [OF assms(1) ge]
    by (simp add: percentage_double not_less)
  have sev: "severity ?m = Secure"
    using pc by (simp add: severity_double)
  have t_le: "t \<le> (4 * p) div 3"
    using ge by presburger
  have ac': "actionCount ?m = (4 * p) div 3 - t"
    using pc by (simp only: actionCount_double if_False skippable_double [OF assms(1,2) ge])
      (use t_le in simp)
  have ac: "actionCount ?m = max 0 \<lfloor>of_int p / 0.75 - (of_int t :: rat)\<rfloor>"
    using ac' t_le unfolding floor_skippable by simp
  have y0: "0 \<le> actionCount ?m"
    using ac' t_le by simp
  have pos: "t + actionCount ?m > 0"
    using y0 assms(1) by simp
  have "3 * (t + actionCount ?m) \<le> 4 * p"
    unfolding ac' by presburger
  then have "(of_int p :: rat) / of_int (t + actionCount ?m) \<ge> 3 / 4"
    using pos by (simp only: ratio_ge_iff)
  then show ?thesis
    using pc sev ac y0 by (simp add: Let_def)
qed

theorem secure_actionCount_witness:
  "(0::int) < 10 \<and> (9::int) \<le> 2 ^ 50 \<and> (of_int 9 :: rat) / of_int 10 * 100 \<ge> 75 \<and>
   severity (calculateAttendanceMessageDouble ''CS101'' 9 10 Present) = Secure \<and>
   actionCount (calculateAttendanceMessageDouble ''CS101'' 9 10 Present) = 2 \<and>
   (of_int 9 :: rat) / of_int (10 + 2) \<ge> 3 / 4"
proof -
  have h1: "(0::int) < 10" by simp
  have h2: "(9::int) \<le> 2 ^ 50" by simp
  have h3: "(of_int 9 :: rat) / of_int 10 * 100 \<ge> 75" by simp
  have f: "\<lfloor>of_int 9 / 0.75 - (of_int 10 :: rat)\<rfloor> = 2"
    unfolding floor_skippable by simp
  from secure_actionCount [OF h1 h2 h3, of "''CS101''" Present]
  have "severity (calculateAttendanceMessageDouble ''CS101'' 9 10 Present) = Secure"
    and "actionCount (calculateAttendanceMessageDouble ''CS101'' 9 10 Present) = 2"
    unfolding f by simp_all
  then show ?thesis by simp
qed

subsection \<open>Totality, zero total, non-negative count\<close>


subsection \<open>The threshold is strict\<close>



subsection \<open>Range of the percentage\<close>




subsection \<open>Equal counters\<close>

text \<open>
  Claim C9. Counters compared with themselves are \<open>Unchanged\<close>, so that a course whose
  counters equal the stored ones sends no message.
\<close>

theorem classify_same:
  "classify c c = Unchanged \<and>
   (studentCourseCompDetails crs \<noteq> [] \<and> prevState (courseCode crs) = Some (currentCounters crs)
      \<longrightarrow> (\<exists>st'. processCourse prevState st crs = Inr st' \<and> sent st' = sent st))"
proof -
  have a: "classify c c = Unchanged"
    by (simp add: classify_def)
  have b: "\<exists>st'. processCourse prevState st crs = Inr st' \<and> sent st' = sent st"
    if h: "studentCourseCompDetails crs \<noteq> []"
      "prevState (courseCode crs) = Some (currentCounters crs)"
  proof -
    have "courseStatus prevState crs = Unchanged"
      using h(2) by (simp add: courseStatus_def oldCounters_def changeStatus_def classify_def)
    then show ?thesis
      by (simp add: processCourse_wf [OF h(1)])
  qed
  from a b show ?thesis by blast
qed

theorem classify_same_witness:
  "studentCourseCompDetails (mkCourse ''CS101'' ''Maths'' 8 10) \<noteq> [] \<and>
   [''CS101'' \<mapsto> \<lparr>present = 8, total = 10\<rparr>] (courseCode (mkCourse ''CS101'' ''Maths'' 8 10)) =
     Some (currentCounters (mkCourse ''CS101'' ''Maths'' 8 10)) \<and>
   classify \<lparr>present = 8, total = 10\<rparr> \<lparr>present = 8, total = 10\<rparr> = Unchanged \<and>
   (\<exists>st'. processCourse [''CS101'' \<mapsto> \<lparr>present = 8, total = 10\<rparr>]
            \<lparr>newState = Map.empty, sent = []\<rparr> (mkCourse ''CS101'' ''Maths'' 8 10) = Inr st' \<and>
          sent st' = [])"
  using classify_same [of "\<lparr>present = 8, total = 10\<rparr>" "mkCourse ''CS101'' ''Maths'' 8 10"
      "[''CS101'' \<mapsto> \<lparr>present = 8, total = 10\<rparr>]" "\<lparr>newState = Map.empty, sent = []\<rparr>"]
  by (simp add: mkCourse_simps)

subsection \<open>Determinism and order of the messages\<close>



subsection \<open>The new state\<close>

text \<open>
  What the loop stores: the keys of the new state are the codes of the course list other
  than \<open>__proto__\<close>, and a code outside the list has neither an entry nor a message.
\<close>

lemma noteCode_noteFor: "noteCode (noteFor prevState c) = courseCode c"
  by (simp add: noteFor_def)

lemma newState_keys:
  assumes "wellFormed courses"
  shows "\<exists>st. checkAttendance prevState courses = Inr st \<and>
           dom (newState st) = courseCode ` set courses - {''__proto__''} \<and>
           (\<forall>code. code \<notin> courseCode ` set courses \<longrightarrow>
              newState st code = None \<and> code \<notin> noteCode ` set (sent st))"
  by (auto simp: checkAttendance_wf [OF assms] dom_stored stored_other noteCode_noteFor)

text \<open>
  Claim C4 says that the new state maps exactly the course codes of the current list, each
  to its fetched counters. Line 179 misses the code \<open>__proto__\<close>: the assignment replaces
  the prototype of the new state and stores no entry. For the list of a course \<open>CS101\<close>
  and a course \<open>__proto__\<close> the new state has the single key \<open>CS101\<close>.
\<close>

theorem proto_course_not_stored:
  "wellFormed [mkCourse ''CS101'' ''Maths'' 8 10, mkCourse ''__proto__'' ''Logic'' 1 2] \<and>
   checkAttendance [''CS101'' \<mapsto> \<lparr>present = 8, total = 10\<rparr>]
       [mkCourse ''CS101'' ''Maths'' 8 10, mkCourse ''__proto__'' ''Logic'' 1 2] =
     Inr \<lparr>newState = [''CS101'' \<mapsto> \<lparr>present = 8, total = 10\<rparr>],
          sent = [\<lparr>noteCode = ''__proto__'', noteStatus = Unknown,
                   noteMsg = calculateAttendanceMessageDouble ''Logic'' 1 2 Unknown\<rparr>]\<rparr> \<and>
   [''CS101'' \<mapsto> \<lparr>present = 8, total = 10\<rparr>] ''__proto__'' = None \<and>
   courseCode (mkCourse ''__proto__'' ''Logic'' 1 2) = ''__proto__''"
  by (simp add: wellFormed_def checkAttendance_def processCourse_def oldCounters_def
      changeStatus_def classify_def objectPrototypeKeys_def mkCourse_simps Let_def)

subsection \<open>Repeated course codes\<close>

text \<open>
  What the loop does with any occurrence of a course in the list: the messages are those of
  the courses before it, then its own if its status against the previous state is not
  \<open>Unchanged\<close>, then those of the courses after it. Against a stored entry the status is
  the case analysis of lines 182 to 188 on that entry, whatever came earlier in the list.
  The new state keeps the counters of the last occurrence, unless the code is
  \<open>__proto__\<close>.
\<close>

lemma occurrence_notification:
  assumes "wellFormed (xs @ c # ys)"
  shows "\<exists>st stx sty.
           checkAttendance prevState (xs @ c # ys) = Inr st \<and>
           checkAttendance prevState xs = Inr stx \<and>
           checkAttendance prevState ys = Inr sty \<and>
           sent st = sent stx @
             (if courseStatus prevState c \<noteq> Unchanged then [noteFor prevState c] else []) @
             sent sty \<and>
           (\<forall>old. prevState (courseCode c) = Some old \<longrightarrow>
              courseStatus prevState c =
                (if present old = present (currentCounters c) \<and>
                    total old = total (currentCounters c) then Unchanged
                 else if total (currentCounters c) > total old \<and>
                    present (currentCounters c) > present old then Present
                 else if total (currentCounters c) > total old \<and>
                    present (currentCounters c) = present old then Absent
                 else Unknown)) \<and>
           (courseCode c \<notin> courseCode ` set ys \<and> courseCode c \<noteq> ''__proto__'' \<longrightarrow>
              newState st (courseCode c) = Some (currentCounters c))"
proof -
  from assms have wx: "wellFormed xs" and wy: "wellFormed ys"
    by (simp_all add: wellFormed_def)
  have n: "courseCode c \<notin> courseCode ` set ys \<and> courseCode c \<noteq> ''__proto__'' \<longrightarrow>
      stored Map.empty (xs @ c # ys) (courseCode c) = Some (currentCounters c)"
    by (simp add: stored_append stored_other)
  have s: "\<forall>old. prevState (courseCode c) = Some old \<longrightarrow>
      courseStatus prevState c =
        (if present old = present (currentCounters c) \<and>
            total old = total (currentCounters c) then Unchanged
         else if total (currentCounters c) > total old \<and>
            present (currentCounters c) > present old then Present
         else if total (currentCounters c) > total old \<and>
            present (currentCounters c) = present old then Absent
         else Unknown)"
    by (auto simp: courseStatus_def oldCounters_def changeStatus_def classify_def)
  show ?thesis
    using n s
    by (simp add: checkAttendance_wf [OF assms] checkAttendance_wf [OF wx]
        checkAttendance_wf [OF wy])
qed

text \<open>
  Claim C10 says that of a course code occurring more than once the new state keeps the
  counters of the last occurrence. By the slip of line 179 reported under claim C4 this
  fails for the code \<open>__proto__\<close>: for two occurrences, at 1/2 and at 3/4, each gets its
  own message, and the new state keeps neither.
\<close>

theorem proto_last_occurrence_not_kept:
  "checkAttendance Map.empty
       [mkCourse ''__proto__'' ''Logic'' 1 2, mkCourse ''__proto__'' ''Logic'' 3 4] =
     Inr \<lparr>newState = Map.empty,
          sent = [\<lparr>noteCode = ''__proto__'', noteStatus = Unknown,
                   noteMsg = calculateAttendanceMessageDouble ''Logic'' 1 2 Unknown\<rparr>,
                  \<lparr>noteCode = ''__proto__'', noteStatus = Unknown,
                   noteMsg = calculateAttendanceMessageDouble ''Logic'' 3 4 Unknown\<rparr>]\<rparr>"
  by (simp add: checkAttendance_def processCourse_def oldCounters_def
      changeStatus_def classify_def objectPrototypeKeys_def mkCourse_simps Let_def)

end
